theory Spec2Isabelle
  imports Complex_Main
begin

section \<open>Spectral curve processing (backend/spectroscopy.py)\<close>

text \<open>
  A numpy array is a list; indices and the window are Python integers, hence \<open>int\<close>,
  with Python's rules for negative indices and for slices written out. Exceptions are
  values of \<open>py_error\<close>. The peak detector only compares samples, and its samples are
  real numbers. The normaliser divides them, and its samples are \<open>float64\<close> values
  with the infinities, NaN and rounding (below).
\<close>

datatype py_error = ValueError | IndexError | AttributeError | ApiError string

record SpectrumFeature =
  peak_energy :: real
  peak_intensity :: real

text \<open>\<open>np.max(a)\<close>: raises ValueError on an empty array.\<close>

fun np_max :: "real list \<Rightarrow> py_error + real" where
  "np_max [] = Inl ValueError"
| "np_max (x # xs) = Inr (fold max xs x)"

text \<open>\<open>a[i]\<close>: a negative index counts from the end; out of range raises IndexError.\<close>

definition py_index :: "'a list \<Rightarrow> int \<Rightarrow> py_error + 'a" where
  "py_index xs i =
     (if 0 \<le> i \<and> i < int (length xs) then Inr (xs ! nat i)
      else if i < 0 \<and> - int (length xs) \<le> i then Inr (xs ! nat (int (length xs) + i))
      else Inl IndexError)"

text \<open>\<open>a[lo:hi]\<close>: negative bounds count from the end, then both are clipped to the
  array; a slice never raises.\<close>

definition py_slice :: "'a list \<Rightarrow> int \<Rightarrow> int \<Rightarrow> 'a list" where
  "py_slice xs lo hi =
     (let n = int (length xs);
          lo' = (if lo < 0 then max (n + lo) 0 else min lo n);
          hi' = (if hi < 0 then max (n + hi) 0 else min hi n)
      in take (nat (hi' - lo')) (drop (nat lo') xs))"

text \<open>
  The body of the loop of \<open>detect_peaks\<close>, run over the indices that
  \<open>range(window, n - window)\<close> yields, with the list of peaks found so far.
  \<^verbatim>\<open>
      for i in range(window, n - window):
          local = intensity[i - window : i + window + 1]
          if intensity[i] == np.max(local) and intensity[i] >= threshold:
              peaks.append(SpectrumFeature(peak_energy=float(energy[i]),
                                           peak_intensity=float(intensity[i])))
  \<close>
\<close>

fun peaks_loop ::
  "real list \<Rightarrow> real list \<Rightarrow> int \<Rightarrow> real \<Rightarrow> int list \<Rightarrow> SpectrumFeature list
     \<Rightarrow> py_error + SpectrumFeature list" where
  "peaks_loop energy intensity window threshold [] peaks = Inr peaks"
| "peaks_loop energy intensity window threshold (i # is) peaks =
     (let local = py_slice intensity (i - window) (i + window + 1) in
      case py_index intensity i of
        Inl e \<Rightarrow> Inl e
      | Inr y \<Rightarrow>
          (case np_max local of
             Inl e \<Rightarrow> Inl e
           | Inr m \<Rightarrow>
               if y = m \<and> y \<ge> threshold then
                 (case py_index energy i of
                    Inl e \<Rightarrow> Inl e
                  | Inr x \<Rightarrow>
                      peaks_loop energy intensity window threshold is
                        (peaks @ [\<lparr>peak_energy = x, peak_intensity = y\<rparr>]))
               else peaks_loop energy intensity window threshold is peaks))"

text \<open>
  \<^verbatim>\<open>
  def detect_peaks(energy, intensity, window=5, threshold=0.2):
      peaks = []
      n = len(intensity)
      if n == 0:
          return peaks
      for i in range(window, n - window): ...
      return peaks
  \<close>
\<close>

definition detect_peaks ::
  "real list \<Rightarrow> real list \<Rightarrow> int \<Rightarrow> real \<Rightarrow> py_error + SpectrumFeature list" where
  "detect_peaks energy intensity window threshold =
     (let n = int (length intensity) in
      if n = 0 then Inr []
      else peaks_loop energy intensity window threshold [window .. n - window - 1] [])"

text \<open>
  The peak detector as the specification words it, over natural-number indices:
  the local window of index \<open>i\<close> is \<open>intensity[i-window .. i+window]\<close>, an index
  is a peak if its sample equals the maximum of its local window and reaches the
  threshold, and the candidates are the indices \<open>window .. n-1-window\<close>.
\<close>

definition local_window :: "real list \<Rightarrow> nat \<Rightarrow> nat \<Rightarrow> real list" where
  "local_window intensity w i = map (\<lambda>j. intensity ! j) [i - w ..< i + w + 1]"

definition is_peak :: "real list \<Rightarrow> nat \<Rightarrow> real \<Rightarrow> nat \<Rightarrow> bool" where
  "is_peak intensity w threshold i \<longleftrightarrow>
     intensity ! i = Max (set (local_window intensity w i)) \<and> intensity ! i \<ge> threshold"

definition peak_indices :: "real list \<Rightarrow> nat \<Rightarrow> real \<Rightarrow> nat list" where
  "peak_indices intensity w threshold =
     filter (is_peak intensity w threshold) [w ..< length intensity - w]"

definition feature_at :: "real list \<Rightarrow> real list \<Rightarrow> nat \<Rightarrow> SpectrumFeature" where
  "feature_at energy intensity i = \<lparr>peak_energy = energy ! i, peak_intensity = intensity ! i\<rparr>"


subsection \<open>Double-precision samples\<close>

text \<open>
  A numpy \<open>float64\<close>: a finite value, an infinity or NaN. The two zeros are one value.
  A finite value is a real number; the results of division are doubles, by rounding.
\<close>

datatype float64 = Finite real | PosInf | NegInf | NaN

text \<open>\<open>x <= y\<close>: false as soon as one side is NaN.\<close>

fun f_le :: "float64 \<Rightarrow> float64 \<Rightarrow> bool" where
  "f_le NaN y = False"
| "f_le x NaN = False"
| "f_le NegInf y = True"
| "f_le x PosInf = True"
| "f_le (Finite a) (Finite b) = (a \<le> b)"
| "f_le x y = False"

text \<open>
  Rounding to the nearest double, ties to the even neighbour. The doubles around \<open>x\<close>
  are the multiples of \<open>2 ^ (e - 52)\<close>, where \<open>e\<close> is the exponent of \<open>x\<close>: the
  largest \<open>k\<close> of \<open>-1022 .. 1023\<close> with \<open>2 ^ k \<le> |x|\<close>, and \<open>-1022\<close> for the
  subnormal values below all of them. A result of magnitude \<open>2 ^ 1024\<close> or more
  overflows to an infinity.
\<close>

definition round_half_even :: "real \<Rightarrow> int" where
  "round_half_even t =
     (let f = \<lfloor>t\<rfloor>; d = t - of_int f
      in if d < 1 / 2 then f else if 1 / 2 < d then f + 1 else if even f then f else f + 1)"

definition exponent64 :: "real \<Rightarrow> int" where
  "exponent64 x = Max (insert (- 1022) {k \<in> {- 1022 .. 1023}. 2 powi k \<le> \<bar>x\<bar>})"

definition round_float64 :: "real \<Rightarrow> float64" where
  "round_float64 x =
     (if x = 0 then Finite 0
      else
        let q = 2 powi (exponent64 x - 52);
            y = of_int (round_half_even (x / q)) * q
        in if 2 ^ 1024 \<le> \<bar>y\<bar> then (if 0 < x then PosInf else NegInf) else Finite y)"

text \<open>
  \<open>x / y\<close> on doubles, as numpy computes it elementwise (no exception: a division
  by zero gives an infinity or NaN).
\<close>

fun f_div :: "float64 \<Rightarrow> float64 \<Rightarrow> float64" where
  "f_div NaN y = NaN"
| "f_div x NaN = NaN"
| "f_div (Finite a) (Finite b) =
     (if b = 0 then (if a = 0 then NaN else if 0 < a then PosInf else NegInf)
      else round_float64 (a / b))"
| "f_div (Finite a) y = Finite 0"
| "f_div PosInf (Finite b) = (if 0 \<le> b then PosInf else NegInf)"
| "f_div NegInf (Finite b) = (if 0 \<le> b then NegInf else PosInf)"
| "f_div x y = NaN"

text \<open>\<open>np.max\<close> on doubles: NaN as soon as one element is NaN.\<close>

definition f_maximum :: "float64 \<Rightarrow> float64 \<Rightarrow> float64" where
  "f_maximum a b = (if a = NaN \<or> b = NaN then NaN else if f_le a b then b else a)"

fun np_max_float :: "float64 list \<Rightarrow> py_error + float64" where
  "np_max_float [] = Inl ValueError"
| "np_max_float (x # xs) = Inr (fold f_maximum xs x)"

text \<open>
  \<^verbatim>\<open>
  def normalize_intensity(intensity):
      max_val = np.max(intensity)
      if max_val <= 0:
          return intensity
      return intensity / max_val
  \<close>
\<close>

definition normalize_intensity :: "float64 list \<Rightarrow> py_error + float64 list" where
  "normalize_intensity intensity =
     (case np_max_float intensity of
        Inl e \<Rightarrow> Inl e
      | Inr max_val \<Rightarrow>
          if f_le max_val (Finite 0) then Inr intensity
          else Inr (map (\<lambda>x. f_div x max_val) intensity))"

section \<open>Vector store (backend/pinecone_rag.py)\<close>

text \<open>
  The store talks to three external collaborators: the embedding model, the Pinecone
  index and the UUID generator. They are parameters of the model (a record of
  functions, \<open>backend\<close>); the state they hold and the calls made to them are
  threaded through every operation as a \<open>world\<close>. Output written with \<open>print\<close>
  is not modelled.
\<close>

type_synonym vector = "real list"

text \<open>
  One match of a query response: \<open>{id, score, metadata}\<close>. The metadata is a dict,
  or \<open>None\<close> for a vector that was stored without metadata.
\<close>

record match =
  m_id :: string
  m_score :: real
  m_metadata :: "(string \<rightharpoonup> string) option"

record query_response =
  matches :: "match list"

text \<open>One vector handed to \<open>index.upsert\<close>: \<open>{"id", "values", "metadata"}\<close>.\<close>

record vector_record =
  v_id :: string
  v_values :: vector
  v_metadata :: "string \<rightharpoonup> string"

text \<open>
  The external services over an index state \<open>'ix\<close>: \<open>embeddings_create\<close> is
  \<open>oai_client.embeddings.create\<close> followed by reading \<open>.embedding\<close> of every item,
  \<open>index_query ix namespace vector top_k\<close> is \<open>index.query\<close>, \<open>index_upsert ix vectors
  namespace\<close> is \<open>index.upsert\<close>, and \<open>uuid4 n\<close> is the string of the \<open>n\<close>-th UUID
  drawn. Every call but the last may raise.
\<close>

record 'ix backend =
  embeddings_create :: "string list \<Rightarrow> py_error + vector list"
  list_indexes :: "'ix \<Rightarrow> py_error + string list"
  create_index :: "'ix \<Rightarrow> string \<Rightarrow> py_error + 'ix"
  index_query :: "'ix \<Rightarrow> string \<Rightarrow> vector \<Rightarrow> int \<Rightarrow> py_error + query_response"
  index_upsert :: "'ix \<Rightarrow> vector_record list \<Rightarrow> string \<Rightarrow> py_error + 'ix"
  uuid4 :: "nat \<Rightarrow> string"

datatype call =
    EmbeddingsCreate "string list"
  | ListIndexes
  | CreateIndex string
  | IndexQuery string vector int
  | IndexUpsert "vector_record list" string

record 'ix world =
  pinecone :: 'ix
  uuid_count :: nat
  calls :: "call list"

definition log_call :: "call \<Rightarrow> 'ix world \<Rightarrow> 'ix world" where
  "log_call c w = w\<lparr>calls := calls w @ [c]\<rparr>"

text \<open>\<open>d.get(key, default)\<close>\<close>

definition dict_get :: "('k \<rightharpoonup> 'v) \<Rightarrow> 'k \<Rightarrow> 'v \<Rightarrow> 'v" where
  "dict_get d key dflt = (case d key of None \<Rightarrow> dflt | Some v \<Rightarrow> v)"

text \<open>
  \<^verbatim>\<open>
  def embed_text(texts):
      resp = oai_client.embeddings.create(model=settings.EMBEDDING_MODEL, input=texts)
      return [item.embedding for item in resp.data]
  \<close>
\<close>

definition embed_text ::
  "'ix backend \<Rightarrow> string list \<Rightarrow> 'ix world \<Rightarrow> (py_error + vector list) \<times> 'ix world" where
  "embed_text be texts w = (embeddings_create be texts, log_call (EmbeddingsCreate texts) w)"

text \<open>The store object; its only attribute that the operations read is \<open>enabled\<close>.\<close>

record PineconeRAG =
  enabled :: bool

text \<open>
  \<^verbatim>\<open>
  def __init__(self):
      if not PINECONE_API_KEY:
          self.enabled = False
          return
      self.pc = Pinecone(api_key=PINECONE_API_KEY)
      existing_indexes = [idx["name"] for idx in self.pc.list_indexes()]
      if PINECONE_INDEX_NAME not in existing_indexes:
          self.pc.create_index(name=PINECONE_INDEX_NAME, ...)
      self.index = self.pc.Index(PINECONE_INDEX_NAME)
      self.enabled = True
  \<close>
  The two module constants read from the environment are arguments. Building the
  client object and the index handle is not counted as a call to the service.
\<close>

definition PineconeRAG_init ::
  "'ix backend \<Rightarrow> string \<Rightarrow> string \<Rightarrow> 'ix world \<Rightarrow> (py_error + PineconeRAG) \<times> 'ix world" where
  "PineconeRAG_init be PINECONE_API_KEY PINECONE_INDEX_NAME w =
     (if PINECONE_API_KEY = [] then (Inr \<lparr>enabled = False\<rparr>, w)
      else
        let w1 = log_call ListIndexes w in
        case list_indexes be (pinecone w1) of
          Inl e \<Rightarrow> (Inl e, w1)
        | Inr existing_indexes \<Rightarrow>
            if PINECONE_INDEX_NAME \<notin> set existing_indexes then
              (let w2 = log_call (CreateIndex PINECONE_INDEX_NAME) w1 in
               case create_index be (pinecone w2) PINECONE_INDEX_NAME of
                 Inl e \<Rightarrow> (Inl e, w2)
               | Inr ix \<Rightarrow> (Inr \<lparr>enabled = True\<rparr>, w2\<lparr>pinecone := ix\<rparr>))
            else (Inr \<lparr>enabled = True\<rparr>, w1))"

text \<open>
  The loop of \<open>upsert_docs\<close> over the (text, embedding) pairs, with the list
  \<open>vectors_to_insert\<close> built so far.
  \<^verbatim>\<open>
      for text, emb in zip(docs, embeddings):
          try:
              existing = self.index.query(namespace=namespace, vector=emb,
                                          top_k=1, include_metadata=True)
          except Exception as e:
              continue
          if existing and existing.matches:
              top_match = existing.matches[0]
              if top_match.score > 0.99:
                  continue
          vid = str(uuid.uuid4())
          vectors_to_insert.append({"id": vid, "values": emb, "metadata": {"text": text}})
  \<close>
  A response object is truthy, so \<open>existing and existing.matches\<close> tests that the list
  of matches is not empty.
\<close>

fun dedup_loop ::
  "'ix backend \<Rightarrow> string \<Rightarrow> (string \<times> vector) list \<Rightarrow> vector_record list \<Rightarrow> 'ix world
     \<Rightarrow> vector_record list \<times> 'ix world" where
  "dedup_loop be namespace [] vectors_to_insert w = (vectors_to_insert, w)"
| "dedup_loop be namespace ((text, emb) # rest) vectors_to_insert w =
     (let w1 = log_call (IndexQuery namespace emb 1) w in
      case index_query be (pinecone w1) namespace emb 1 of
        Inl e \<Rightarrow> dedup_loop be namespace rest vectors_to_insert w1
      | Inr existing \<Rightarrow>
          if matches existing \<noteq> [] \<and> m_score (matches existing ! 0) > 99 / 100
          then dedup_loop be namespace rest vectors_to_insert w1
          else
            (let vid = uuid4 be (uuid_count w1);
                 w2 = w1\<lparr>uuid_count := Suc (uuid_count w1)\<rparr>
             in dedup_loop be namespace rest
                  (vectors_to_insert @
                     [\<lparr>v_id = vid, v_values = emb, v_metadata = [''text'' \<mapsto> text]\<rparr>])
                  w2))"

text \<open>
  The end of \<open>upsert_docs\<close>:
  \<^verbatim>\<open>
      if vectors_to_insert:
          self.index.upsert(vectors=vectors_to_insert, namespace=namespace)
  \<close>
\<close>

definition insert_staged ::
  "'ix backend \<Rightarrow> string \<Rightarrow> vector_record list \<Rightarrow> 'ix world \<Rightarrow> (py_error + unit) \<times> 'ix world" where
  "insert_staged be namespace vectors_to_insert w =
     (if vectors_to_insert \<noteq> [] then
        (let w1 = log_call (IndexUpsert vectors_to_insert namespace) w in
         case index_upsert be (pinecone w1) vectors_to_insert namespace of
           Inl e \<Rightarrow> (Inl e, w1)
         | Inr ix \<Rightarrow> (Inr (), w1\<lparr>pinecone := ix\<rparr>))
      else (Inr (), w))"

text \<open>Steps 2 to 5 of \<open>upsert_docs\<close>: the loop, then the insertion.\<close>

definition upsert_pairs ::
  "'ix backend \<Rightarrow> string \<Rightarrow> (string \<times> vector) list \<Rightarrow> 'ix world \<Rightarrow> (py_error + unit) \<times> 'ix world" where
  "upsert_pairs be namespace pairs w =
     (case dedup_loop be namespace pairs [] w of
        (vectors_to_insert, w1) \<Rightarrow> insert_staged be namespace vectors_to_insert w1)"

text \<open>
  \<^verbatim>\<open>
  def upsert_docs(self, docs, namespace="default"):
      if not self.enabled or not docs:
          return
      embeddings = embed_text(docs)
      vectors_to_insert = []
      for text, emb in zip(docs, embeddings): ...
      if vectors_to_insert: ...
  \<close>
\<close>

definition upsert_docs ::
  "'ix backend \<Rightarrow> PineconeRAG \<Rightarrow> string list \<Rightarrow> string \<Rightarrow> 'ix world
     \<Rightarrow> (py_error + unit) \<times> 'ix world" where
  "upsert_docs be self docs namespace w =
     (if \<not> enabled self \<or> docs = [] then (Inr (), w)
      else
        case embed_text be docs w of
          (Inl e, w1) \<Rightarrow> (Inl e, w1)
        | (Inr embeddings, w1) \<Rightarrow> upsert_pairs be namespace (zip docs embeddings) w1)"

text \<open>
  The loop of \<open>retrieve\<close> over the matches of the response:
  \<^verbatim>\<open>
      for match in resp.matches:
          text = match.metadata.get("text", "")
          score = match.score
          results.append((text, match.id, score))
  \<close>
  On \<open>None\<close> the attribute lookup \<open>match.metadata.get\<close> raises AttributeError.
\<close>

fun results_loop ::
  "match list \<Rightarrow> (string \<times> string \<times> real) list
     \<Rightarrow> py_error + (string \<times> string \<times> real) list" where
  "results_loop [] results = Inr results"
| "results_loop (match # rest) results =
     (case m_metadata match of
        None \<Rightarrow> Inl AttributeError
      | Some metadata \<Rightarrow>
          (let text = dict_get metadata ''text'' '''';
               score = m_score match
           in results_loop rest (results @ [(text, m_id match, score)])))"

text \<open>
  \<^verbatim>\<open>
  def retrieve(self, query, k=3, namespace="default"):
      if not self.enabled:
          return []
      q_emb = embed_text([query])[0]
      resp = self.index.query(namespace=namespace, vector=q_emb, top_k=k,
                              include_metadata=True)
      results = []
      for match in resp.matches: ...
      return results
  \<close>
\<close>

definition retrieve ::
  "'ix backend \<Rightarrow> PineconeRAG \<Rightarrow> string \<Rightarrow> int \<Rightarrow> string \<Rightarrow> 'ix world
     \<Rightarrow> (py_error + (string \<times> string \<times> real) list) \<times> 'ix world" where
  "retrieve be self query k namespace w =
     (if \<not> enabled self then (Inr [], w)
      else
        case embed_text be [query] w of
          (Inl e, w1) \<Rightarrow> (Inl e, w1)
        | (Inr embeddings, w1) \<Rightarrow>
            (case py_index embeddings 0 of
               Inl e \<Rightarrow> (Inl e, w1)
             | Inr q_emb \<Rightarrow>
                 (let w2 = log_call (IndexQuery namespace q_emb k) w1 in
                  case index_query be (pinecone w2) namespace q_emb k of
                    Inl e \<Rightarrow> (Inl e, w2)
                  | Inr resp \<Rightarrow> (results_loop (matches resp) [], w2))))"

subsection \<open>The insertion step as the specification words it\<close>

text \<open>
  A (text, embedding) pair is kept when its nearest-neighbour query returns and the
  response has no top match scoring strictly above 0.99; the kept pairs, in order,
  become vectors whose ids are consecutive draws of the UUID generator.
\<close>

definition top_match_exceeds :: "query_response \<Rightarrow> bool" where
  "top_match_exceeds resp \<longleftrightarrow> (case matches resp of [] \<Rightarrow> False | top_match # _ \<Rightarrow> 99 / 100 < m_score top_match)"

definition is_kept :: "'ix backend \<Rightarrow> 'ix \<Rightarrow> string \<Rightarrow> string \<times> vector \<Rightarrow> bool" where
  "is_kept be ix namespace p =
     (case index_query be ix namespace (snd p) 1 of
        Inl e \<Rightarrow> False
      | Inr resp \<Rightarrow> \<not> top_match_exceeds resp)"

definition kept_pairs ::
  "'ix backend \<Rightarrow> 'ix \<Rightarrow> string \<Rightarrow> (string \<times> vector) list \<Rightarrow> (string \<times> vector) list" where
  "kept_pairs be ix namespace pairs = filter (is_kept be ix namespace) pairs"

definition staged_vectors ::
  "'ix backend \<Rightarrow> nat \<Rightarrow> (string \<times> vector) list \<Rightarrow> vector_record list" where
  "staged_vectors be c kept =
     map (\<lambda>(j, (text, emb)). \<lparr>v_id = uuid4 be j, v_values = emb, v_metadata = [''text'' \<mapsto> text]\<rparr>)
       (enumerate c kept)"

text \<open>
  The reading of the insertion step that has no case for a failing query: a pair is
  skipped exactly when the query returns a top match scoring above 0.99, and staged
  otherwise.
\<close>

definition skipped_by_score :: "'ix backend \<Rightarrow> 'ix \<Rightarrow> string \<Rightarrow> string \<times> vector \<Rightarrow> bool" where
  "skipped_by_score be ix namespace p =
     (case index_query be ix namespace (snd p) 1 of
        Inl e \<Rightarrow> False
      | Inr resp \<Rightarrow> top_match_exceeds resp)"

subsection \<open>A reference index for concrete runs\<close>

text \<open>
  An in-memory index: every namespace holds a list of vectors, a query scores them by
  cosine similarity and returns the \<open>top_k\<close> best in descending order of score, an
  upsert replaces the vectors whose ids it carries and appends the new ones.
\<close>

type_synonym mem_index = "string \<Rightarrow> vector_record list"

definition dot :: "vector \<Rightarrow> vector \<Rightarrow> real" where
  "dot a b = sum_list (map2 (*) a b)"

definition cosine :: "vector \<Rightarrow> vector \<Rightarrow> real" where
  "cosine a b = dot a b / (sqrt (dot a a) * sqrt (dot b b))"

definition mem_query :: "mem_index \<Rightarrow> string \<Rightarrow> vector \<Rightarrow> int \<Rightarrow> py_error + query_response" where
  "mem_query ix namespace v top_k =
     Inr \<lparr>matches = take (nat top_k)
            (sort_key (\<lambda>m. - m_score m)
               (map (\<lambda>r. \<lparr>m_id = v_id r, m_score = cosine v (v_values r),
                           m_metadata = Some (v_metadata r)\<rparr>) (ix namespace)))\<rparr>"

definition stored_ids :: "mem_index \<Rightarrow> string \<Rightarrow> string set" where
  "stored_ids ix namespace = set (map v_id (ix namespace))"

definition mem_upsert :: "mem_index \<Rightarrow> vector_record list \<Rightarrow> string \<Rightarrow> py_error + mem_index" where
  "mem_upsert ix vs namespace =
     Inr (ix(namespace := filter (\<lambda>r. v_id r \<notin> set (map v_id vs)) (ix namespace) @ vs))"

text \<open>A toy embedding with two directions, and UUIDs written in unary.\<close>

definition toy_embedding :: "string \<Rightarrow> vector" where
  "toy_embedding text = (if text = ''xas'' then [1, 0] else [0, 1])"

definition toy_uuid :: "nat \<Rightarrow> string" where
  "toy_uuid n = replicate (Suc n) (CHR ''u'')"

definition mem_backend :: "mem_index backend" where
  "mem_backend =
     \<lparr>embeddings_create = (\<lambda>texts. Inr (map toy_embedding texts)),
      list_indexes = (\<lambda>ix. Inr [''xray-rag'']),
      create_index = (\<lambda>ix name. Inr ix),
      index_query = mem_query,
      index_upsert = mem_upsert,
      uuid4 = toy_uuid\<rparr>"

text \<open>
  The same backend with scripted answers to queries: direction \<open>[1, 0]\<close> has a
  neighbour at similarity exactly 0.99, \<open>[0, 1]\<close> has one at similarity 1 whose
  metadata is an empty dict, the query of \<open>[1, 1]\<close> fails, \<open>[1, 2]\<close> has a neighbour
  stored without metadata, and any other vector has no neighbour.
\<close>

definition scripted_query :: "mem_index \<Rightarrow> string \<Rightarrow> vector \<Rightarrow> int \<Rightarrow> py_error + query_response" where
  "scripted_query ix namespace v top_k =
     (if v = [1, 0] then
        Inr \<lparr>matches = [\<lparr>m_id = ''a'', m_score = 99 / 100,
                        m_metadata = Some [''text'' \<mapsto> ''near'']\<rparr>]\<rparr>
      else if v = [0, 1] then
        Inr \<lparr>matches = [\<lparr>m_id = ''b'', m_score = 1, m_metadata = Some Map.empty\<rparr>,
                        \<lparr>m_id = ''c'', m_score = 1 / 2,
                         m_metadata = Some [''text'' \<mapsto> ''far'']\<rparr>,
                        \<lparr>m_id = ''d'', m_score = 3 / 4,
                         m_metadata = Some [''title'' \<mapsto> ''t'']\<rparr>]\<rparr>
      else if v = [1, 1] then Inl (ApiError ''timeout'')
      else if v = [1, 2] then
        Inr \<lparr>matches = [\<lparr>m_id = ''c'', m_score = 1 / 2,
                         m_metadata = Some [''text'' \<mapsto> ''far'']\<rparr>,
                        \<lparr>m_id = ''e'', m_score = 1 / 4, m_metadata = None\<rparr>]\<rparr>
      else Inr \<lparr>matches = []\<rparr>)"

definition scripted_backend :: "mem_index backend" where
  "scripted_backend =
     \<lparr>embeddings_create =
        (\<lambda>texts. Inr (map (\<lambda>t. if t = ''both'' then [1, 1] else if t = ''new'' then [2, 0]
                               else if t = ''bare'' then [1, 2] else toy_embedding t) texts)),
      list_indexes = (\<lambda>ix. Inr [''xray-rag'']),
      create_index = (\<lambda>ix name. Inr ix),
      index_query = scripted_query,
      index_upsert = mem_upsert,
      uuid4 = toy_uuid\<rparr>"

definition empty_world :: "mem_index world" where
  "empty_world = \<lparr>pinecone = (\<lambda>namespace. []), uuid_count = 0, calls = []\<rparr>"

text \<open>A world whose default namespace already holds one vector, stored by someone else.\<close>

definition seeded_world :: "mem_index world" where
  "seeded_world =
     \<lparr>pinecone = (\<lambda>namespace. [])(''default'' :=
        [\<lparr>v_id = ''a'', v_values = [99, 14], v_metadata = [''text'' \<mapsto> ''near'']\<rparr>]),
      uuid_count = 0, calls = []\<rparr>"

section \<open>Properties of the spectral curve processing\<close>

subsection \<open>Array primitives\<close>

lemma np_max_Max:
  assumes "xs \<noteq> []"
  shows "np_max xs = Inr (Max (set xs))"
proof (cases xs)
  case Nil
  with assms show ?thesis by simp
next
  case (Cons y ys)
  have "fold max ys y = Max (set (y # ys))" by (rule Max.set_eq_fold [symmetric])
  with Cons show ?thesis by simp
qed

lemma py_index_nat: "i < length xs \<Longrightarrow> py_index xs (int i) = Inr (xs ! i)"
  by (simp add: py_index_def)

lemma py_slice_window:
  assumes "w \<le> i" "i + w < length xs"
  shows "py_slice xs (int i - int w) (int i + int w + 1) = local_window xs w i"
proof -
  have "take (2 * w + 1) (drop (i - w) xs) = map (\<lambda>j. xs ! j) [i - w ..< i + w + 1]"
  proof (rule nth_equalityI)
    show "length (take (2 * w + 1) (drop (i - w) xs)) =
          length (map (\<lambda>j. xs ! j) [i - w ..< i + w + 1])"
      using assms by simp
  next
    fix k assume "k < length (take (2 * w + 1) (drop (i - w) xs))"
    then have k: "k < 2 * w + 1" by simp
    then have "[i - w ..< i + w + 1] ! k = i - w + k"
      using assms by (intro nth_upt) linarith
    then show "take (2 * w + 1) (drop (i - w) xs) ! k =
               map (\<lambda>j. xs ! j) [i - w ..< i + w + 1] ! k"
      using k assms by simp
  qed
  moreover have "nat (int i + int w + 1 - (int i - int w)) = 2 * w + 1" by simp
  ultimately show ?thesis
    using assms by (simp add: py_slice_def local_window_def Let_def nat_diff_distrib min_def)
qed

text \<open>\<open>range(a, b)\<close> over natural numbers.\<close>

lemma upto_map_int: "[int a .. int b - 1] = map int [a..<b]"
proof (induction b)
  case 0
  then show ?case by simp
next
  case (Suc b)
  show ?case
  proof (cases "a \<le> b")
    case True
    then have "[int a .. int (Suc b) - 1] = [int a .. int b - 1] @ [int b]"
      using upto_rec2 [of "int a" "int b"] by simp
    with Suc True show ?thesis by simp
  next
    case False
    then show ?thesis by simp
  qed
qed

subsection \<open>The loop of the peak detector\<close>

text \<open>
  On indices that leave a full window on both sides the loop never raises, and it
  appends the features of exactly the indices that are peaks, in the order visited.
\<close>

lemma peaks_loop_spec:
  assumes "length energy = length intensity"
    and "\<forall>i \<in> set is. w \<le> i \<and> i + w < length intensity"
  shows "peaks_loop energy intensity (int w) threshold (map int is) acc =
         Inr (acc @ map (feature_at energy intensity) (filter (is_peak intensity w threshold) is))"
  using assms(2)
proof (induction "is" arbitrary: acc)
  case Nil
  then show ?case by simp
next
  case (Cons i "is")
  then have i: "w \<le> i" "i + w < length intensity" by auto
  then have il: "i < length intensity" "i < length energy" using assms(1) by auto
  have lw: "local_window intensity w i \<noteq> []" by (simp add: local_window_def)
  have sl: "py_slice intensity (int i - int w) (int i + int w + 1) = local_window intensity w i"
    using i by (rule py_slice_window)
  show ?case
    using Cons il lw sl
    by (simp add: py_index_nat np_max_Max is_peak_def feature_at_def)
qed

lemma detect_peaks_eq:
  assumes "length energy = length intensity"
  shows "detect_peaks energy intensity (int w) threshold =
         Inr (map (feature_at energy intensity) (peak_indices intensity w threshold))"
proof (cases "intensity = []")
  case True
  then show ?thesis by (simp add: detect_peaks_def peak_indices_def)
next
  case False
  let ?n = "length intensity"
  have rng: "[int w .. int ?n - int w - 1] = map int [w ..< ?n - w]"
  proof (cases "w \<le> ?n")
    case True
    then have "int ?n - int w - 1 = int (?n - w) - 1" by simp
    then show ?thesis by (simp only: upto_map_int)
  next
    case False
    then show ?thesis by simp
  qed
  have "\<forall>i \<in> set [w ..< ?n - w]. w \<le> i \<and> i + w < ?n" by auto
  from peaks_loop_spec [OF assms this, of threshold "[]"] rng False
  show ?thesis by (simp add: detect_peaks_def peak_indices_def)
qed

lemma local_window_length:
  assumes "w \<le> i"
  shows "length (local_window intensity w i) = 2 * w + 1"
  using assms by (simp add: local_window_def)

text \<open>
  Claim C1. For energy and intensity sequences of equal length \<open>n\<close>, a window
  \<open>w \<ge> 0\<close> and any threshold, \<open>detect_peaks\<close> returns (without raising) the features
  \<open>(energy[i], intensity[i])\<close> of exactly the indices \<open>i\<close> with \<open>w \<le> i \<le> n-1-w\<close> whose
  sample equals the maximum of \<open>intensity[i-w .. i+w]\<close> and is at least the threshold,
  in ascending index order. An index closer than \<open>w\<close> to either end is never among
  them, whatever its sample.
\<close>

theorem detect_peaks_spec:
  assumes "length energy = length intensity"
  shows "detect_peaks energy intensity (int w) threshold =
           Inr (map (feature_at energy intensity) (peak_indices intensity w threshold))
         \<and> set (peak_indices intensity w threshold) =
             {i. w \<le> i \<and> i + w < length intensity \<and> is_peak intensity w threshold i}
         \<and> sorted_wrt (<) (peak_indices intensity w threshold)"
proof -
  have "set (peak_indices intensity w threshold) =
          {i. w \<le> i \<and> i + w < length intensity \<and> is_peak intensity w threshold i}"
    by (auto simp: peak_indices_def)
  moreover have "sorted_wrt (<) (peak_indices intensity w threshold)"
    unfolding peak_indices_def by (rule sorted_wrt_filter) simp
  ultimately show ?thesis using detect_peaks_eq [OF assms] by simp
qed

text \<open>
  An instance: with window 1 the last sample holds the global maximum but lies within
  the window of the end, and only index 2 is reported.
\<close>

theorem detect_peaks_spec_witness:
  "length [1, 2, 3, 4, 5 :: real] = length [1/10, 1/2, 1, 1/2, 1 :: real]
   \<and> detect_peaks [1, 2, 3, 4, 5] [1/10, 1/2, 1, 1/2, 1] 1 (1/5)
       = Inr [\<lparr>peak_energy = 3, peak_intensity = 1\<rparr>]
   \<and> peak_indices [1/10, 1/2, 1, 1/2, 1] 1 (1/5) = [2]"
proof -
  have pi: "peak_indices [1/10, 1/2, 1, 1/2, 1] 1 (1/5) = [2]"
    by (simp add: peak_indices_def is_peak_def local_window_def upt_rec)
  have "length [1, 2, 3, 4, 5 :: real] = length [1/10, 1/2, 1, 1/2, 1 :: real]" by simp
  from detect_peaks_spec [OF this, of 1 "1/5"] pi show ?thesis
    by (simp add: feature_at_def)
qed

text \<open>
  Claim C8. When the length \<open>n\<close> of the intensity sequence satisfies \<open>n \<le> 2 * window\<close>,
  \<open>detect_peaks\<close> returns the empty sequence, for every threshold (and every energy
  sequence).
\<close>

theorem detect_peaks_short:
  assumes "int (length intensity) \<le> 2 * window"
  shows "detect_peaks energy intensity window threshold = Inr []"
proof -
  have "int (length intensity) - window - 1 < window" using assms by simp
  then have "[window .. int (length intensity) - window - 1] = []" by simp
  then show ?thesis by (simp add: detect_peaks_def)
qed

theorem detect_peaks_short_witness:
  "int (length [1, 5, 2, 1 :: real]) \<le> 2 * 2
   \<and> detect_peaks [1, 2, 3, 4] [1, 5, 2, 1] 2 0 = Inr []"
  using detect_peaks_short [of "[1, 5, 2, 1]" 2 "[1, 2, 3, 4]" 0] by simp

lemma is_peak_replicate:
  assumes "w \<le> i" "i + w < n"
  shows "is_peak (replicate n c) w c i"
proof -
  have "map (\<lambda>j. replicate n c ! j) [i - w ..< i + w + 1] = map (\<lambda>j. c) [i - w ..< i + w + 1]"
    using assms by (intro map_cong) auto
  moreover have "i \<in> set [i - w ..< i + w + 1]" by (simp del: upt_Suc)
  ultimately have "set (local_window (replicate n c) w i) = {c}"
    unfolding local_window_def by (simp only: set_map) blast
  then show ?thesis using assms by (simp add: is_peak_def)
qed

text \<open>
  Claim C9. On a constant intensity sequence of length \<open>n > 2 * w\<close> whose samples all
  equal the threshold, \<open>detect_peaks\<close> returns one peak for every index of
  \<open>w .. n-1-w\<close>, that is \<open>n - 2 * w\<close> adjacent peaks: ties are not suppressed.
\<close>

theorem detect_peaks_flat:
  assumes "length energy = n" and "2 * w < n"
  shows "detect_peaks energy (replicate n c) (int w) c =
           Inr (map (\<lambda>i. \<lparr>peak_energy = energy ! i, peak_intensity = c\<rparr>) [w ..< n - w])
         \<and> length [w ..< n - w] = n - 2 * w \<and> 0 < n - 2 * w"
proof -
  have "filter (is_peak (replicate n c) w c) [w ..< n - w] = [w ..< n - w]"
  proof (rule filter_True, rule ballI)
    fix i assume "i \<in> set [w ..< n - w]"
    then have "w \<le> i" "i + w < n" by auto
    then show "is_peak (replicate n c) w c i" by (rule is_peak_replicate)
  qed
  then have pi: "peak_indices (replicate n c) w c = [w ..< n - w]"
    by (simp add: peak_indices_def)
  have "map (feature_at energy (replicate n c)) [w ..< n - w] =
        map (\<lambda>i. \<lparr>peak_energy = energy ! i, peak_intensity = c\<rparr>) [w ..< n - w]"
    by (rule map_cong) (auto simp: feature_at_def)
  with pi detect_peaks_eq [of energy "replicate n c" w c] assms show ?thesis by simp
qed

theorem detect_peaks_flat_witness:
  "length [10, 20, 30, 40, 50 :: real] = 5 \<and> 2 * 1 < (5::nat)
   \<and> detect_peaks [10, 20, 30, 40, 50] (replicate 5 (1/5)) 1 (1/5) =
       Inr [\<lparr>peak_energy = 20, peak_intensity = 1/5\<rparr>,
            \<lparr>peak_energy = 30, peak_intensity = 1/5\<rparr>,
            \<lparr>peak_energy = 40, peak_intensity = 1/5\<rparr>]"
  using detect_peaks_flat [of "[10, 20, 30, 40, 50]" 5 1 "1/5"]
  by (simp add: upt_rec)

subsection \<open>Normalisation\<close>

text \<open>Comparison of doubles is a linear order away from NaN.\<close>

lemma f_le_refl: "x \<noteq> NaN \<Longrightarrow> f_le x x"
  by (cases x) simp_all

lemma f_le_trans: "f_le x y \<Longrightarrow> f_le y z \<Longrightarrow> f_le x z"
  by (cases x; cases y; cases z) simp_all

lemma f_le_total: "x \<noteq> NaN \<Longrightarrow> y \<noteq> NaN \<Longrightarrow> f_le x y \<or> f_le y x"
  by (cases x; cases y) auto

lemma f_le_antisym: "f_le x y \<Longrightarrow> f_le y x \<Longrightarrow> x = y"
  by (cases x; cases y) simp_all

lemma f_le_not_NaN: "f_le x y \<Longrightarrow> x \<noteq> NaN \<and> y \<noteq> NaN"
  by (cases x; cases y) simp_all

text \<open>\<open>np.max\<close> returns the greatest element of an array without NaN.\<close>

lemma fold_f_maximum:
  assumes "acc \<noteq> NaN" and "NaN \<notin> set xs"
  shows "fold f_maximum xs acc \<noteq> NaN
         \<and> fold f_maximum xs acc \<in> insert acc (set xs)
         \<and> f_le acc (fold f_maximum xs acc)
         \<and> (\<forall>x \<in> set xs. f_le x (fold f_maximum xs acc))"
  using assms
proof (induction xs arbitrary: acc)
  case Nil
  then show ?case by (simp add: f_le_refl)
next
  case (Cons x xs)
  let ?a = "f_maximum x acc"
  have x: "x \<noteq> NaN" "NaN \<notin> set xs" using Cons.prems by auto
  have a: "?a \<noteq> NaN" "?a = x \<or> ?a = acc" "f_le acc ?a" "f_le x ?a"
    using x Cons.prems(1) f_le_total [of x acc] by (auto simp: f_maximum_def f_le_refl)
  from Cons.IH [OF a(1) x(2)] a show ?case
    by (auto intro: f_le_trans)
qed

lemma np_max_float_eq:
  assumes "u \<in> set xs" and "\<forall>x \<in> set xs. f_le x u"
  shows "np_max_float xs = Inr u"
proof (cases xs)
  case Nil
  with assms show ?thesis by simp
next
  case (Cons y ys)
  have nn: "NaN \<notin> set xs" using assms(2) f_le_not_NaN by blast
  then have "y \<noteq> NaN" "NaN \<notin> set ys" using Cons by auto
  from fold_f_maximum [OF this] have r: "fold f_maximum ys y \<in> set xs"
    "\<forall>x \<in> set xs. f_le x (fold f_maximum ys y)"
    using Cons by auto
  then have "f_le u (fold f_maximum ys y)" "f_le (fold f_maximum ys y) u"
    using assms by auto
  then have "fold f_maximum ys y = u" using f_le_antisym by blast
  with Cons show ?thesis by simp
qed


lemma fold_f_maximum_NaN:
  assumes "acc = NaN \<or> NaN \<in> set xs"
  shows "fold f_maximum xs acc = NaN"
  using assms
proof (induction xs arbitrary: acc)
  case Nil
  then show ?case by simp
next
  case (Cons x xs)
  then have "f_maximum x acc = NaN \<or> NaN \<in> set xs" by (auto simp: f_maximum_def)
  then show ?case using Cons.IH [of "f_maximum x acc"] by simp
qed

lemma np_max_float_greatest:
  assumes "np_max_float xs = Inr u" and "u \<noteq> NaN"
  shows "u \<in> set xs \<and> (\<forall>x \<in> set xs. f_le x u)"
proof (cases xs)
  case Nil
  with assms show ?thesis by simp
next
  case (Cons y ys)
  then have u: "u = fold f_maximum ys y" using assms(1) by simp
  have "\<not> (y = NaN \<or> NaN \<in> set ys)"
    using fold_f_maximum_NaN [of y ys] u assms(2) by blast
  then have "y \<noteq> NaN" "NaN \<notin> set ys" by auto
  from fold_f_maximum [OF this] u Cons show ?thesis by auto
qed

text \<open>Rounding is monotone at integers, keeps 1, and never makes a quotient below 1 exceed 1.\<close>

lemma round_half_even_le:
  assumes "t \<le> of_int n"
  shows "round_half_even t \<le> n"
proof -
  have f: "\<lfloor>t\<rfloor> \<le> n" using assms by (simp add: floor_le_iff)
  show ?thesis
  proof (cases "t = of_int \<lfloor>t\<rfloor>")
    case True
    then have "t - of_int \<lfloor>t\<rfloor> = 0" by simp
    then have "round_half_even t = \<lfloor>t\<rfloor>" by (simp add: round_half_even_def Let_def)
    with f show ?thesis by simp
  next
    case False
    then have "of_int \<lfloor>t\<rfloor> < t" using of_int_floor_le [of t] by linarith
    then have "\<lfloor>t\<rfloor> < n" using assms by linarith
    moreover have "round_half_even t \<le> \<lfloor>t\<rfloor> + 1" by (simp add: round_half_even_def Let_def)
    ultimately show ?thesis by linarith
  qed
qed

lemma round_half_even_ge:
  assumes "of_int n \<le> t"
  shows "n \<le> round_half_even t"
proof -
  have "n \<le> \<lfloor>t\<rfloor>" using assms by (simp add: le_floor_iff)
  moreover have "\<lfloor>t\<rfloor> \<le> round_half_even t" by (simp add: round_half_even_def Let_def)
  ultimately show ?thesis by linarith
qed

lemma round_half_even_int: "round_half_even (of_int n) = n"
  by (simp add: round_half_even_def)

lemma exponent64_candidates:
  "finite (insert (- 1022) {k \<in> {- 1022 .. 1023}. 2 powi k \<le> \<bar>x::real\<bar>})"
  "insert (- 1022) {k \<in> {- 1022 .. 1023}. 2 powi k \<le> \<bar>x::real\<bar>} \<noteq> {}"
proof -
  have "finite {k \<in> {- 1022 .. 1023 :: int}. 2 powi k \<le> \<bar>x\<bar>}"
    by (rule finite_subset [of _ "{- 1022 .. 1023}"]) auto
  then show "finite (insert (- 1022) {k \<in> {- 1022 .. 1023}. 2 powi k \<le> \<bar>x::real\<bar>})"
    by simp
  show "insert (- 1022) {k \<in> {- 1022 .. 1023}. 2 powi k \<le> \<bar>x::real\<bar>} \<noteq> {}"
    by simp
qed

lemma exponent64_le:
  assumes "\<bar>x\<bar> \<le> 1"
  shows "exponent64 x \<le> 0"
proof -
  have "\<forall>k \<in> insert (- 1022) {k \<in> {- 1022 .. 1023}. 2 powi k \<le> \<bar>x\<bar>}. k \<le> 0"
  proof
    fix k assume k: "k \<in> insert (- 1022) {k \<in> {- 1022 .. 1023}. 2 powi k \<le> \<bar>x\<bar>}"
    show "k \<le> 0"
    proof (rule ccontr)
      assume "\<not> k \<le> 0"
      then have "1 \<le> k" by simp
      then have "(2::real) powi 1 \<le> 2 powi k" by (intro power_int_increasing) simp_all
      moreover have "2 powi k \<le> \<bar>x\<bar>" using k \<open>1 \<le> k\<close> by auto
      ultimately show False using assms by simp
    qed
  qed
  then show ?thesis
    unfolding exponent64_def using Max_le_iff [OF exponent64_candidates [of x]] by blast
qed

lemma exponent64_ge: "- 1022 \<le> exponent64 x"
  unfolding exponent64_def using exponent64_candidates(1) [of x] by (intro Max_ge) simp_all

lemma exponent64_one: "exponent64 1 = 0"
proof -
  have "0 \<in> insert (- 1022) {k \<in> {- 1022 .. 1023}. (2::real) powi k \<le> \<bar>1\<bar>}" by simp
  then have "0 \<le> exponent64 1"
    unfolding exponent64_def using exponent64_candidates(1) [of 1] by (intro Max_ge)
  moreover have "exponent64 1 \<le> 0" by (rule exponent64_le) simp
  ultimately show ?thesis by simp
qed

text \<open>Below 1 the spacing of doubles divides 1.\<close>

lemma spacing_divides_one:
  assumes "e \<le> 0"
  shows "1 / (2 powi (e - 52) :: real) = of_int (2 ^ nat (52 - e))"
proof -
  have "1 / (2 powi (e - 52) :: real) = 2 powi (52 - e)"
    by (simp add: power_int_diff field_simps)
  also have "\<dots> = 2 ^ nat (52 - e)" using assms by (simp add: power_int_def)
  finally show ?thesis by simp
qed

lemma round_float64_one: "round_float64 1 = Finite 1"
proof -
  let ?q = "2 powi (0 - 52) :: real"
  have q: "0 < ?q" by simp
  have "1 / ?q = of_int (2 ^ nat (52 - 0))" by (rule spacing_divides_one) simp
  then have "round_half_even (1 / ?q) = 2 ^ nat (52 - 0)" by (simp only: round_half_even_int)
  then have "of_int (round_half_even (1 / ?q)) * ?q = (1 / ?q) * ?q"
    using \<open>1 / ?q = of_int (2 ^ nat (52 - 0))\<close> by simp
  also have "\<dots> = 1" using q by simp
  finally have y: "of_int (round_half_even (1 / ?q)) * ?q = 1" .
  show ?thesis
    unfolding round_float64_def exponent64_one Let_def y by simp
qed

lemma round_float64_not_NaN: "round_float64 x \<noteq> NaN"
  by (simp add: round_float64_def Let_def)

lemma round_float64_le_one:
  assumes "x \<le> 1"
  shows "f_le (round_float64 x) (Finite 1)"
proof (cases "x = 0")
  case True
  then show ?thesis by (simp add: round_float64_def)
next
  case False
  let ?q = "2 powi (exponent64 x - 52) :: real"
  let ?y = "of_int (round_half_even (x / ?q)) * ?q"
  have q: "0 < ?q" by simp
  show ?thesis
  proof (cases "0 < x")
    case True
    then have "\<bar>x\<bar> \<le> 1" using assms by simp
    then have e: "exponent64 x \<le> 0" by (rule exponent64_le)
    have "x / ?q \<le> 1 / ?q" using assms q by (simp add: divide_right_mono)
    then have "x / ?q \<le> of_int (2 ^ nat (52 - exponent64 x))"
      using spacing_divides_one [OF e] by simp
    then have "round_half_even (x / ?q) \<le> 2 ^ nat (52 - exponent64 x)"
      by (rule round_half_even_le)
    then have "of_int (round_half_even (x / ?q)) \<le> (of_int (2 ^ nat (52 - exponent64 x)) :: real)"
      by (simp only: of_int_le_iff)
    then have "?y \<le> of_int (2 ^ nat (52 - exponent64 x)) * ?q"
      using q by (simp only: mult_right_mono less_imp_le)
    also have "\<dots> = (1 / ?q) * ?q" using spacing_divides_one [OF e] by simp
    also have "\<dots> = 1" using q by simp
    finally have y1: "?y \<le> 1" .
    have "of_int 0 \<le> x / ?q" using True q by simp
    then have "0 \<le> round_half_even (x / ?q)" by (rule round_half_even_ge)
    then have y0: "0 \<le> ?y" using q by simp
    have "\<not> 2 ^ 1024 \<le> \<bar>?y\<bar>"
    proof
      assume "2 ^ 1024 \<le> \<bar>?y\<bar>"
      then have "(2::real) ^ 1024 \<le> 1" using y0 y1 by linarith
      moreover have "(1::real) < 2 ^ 1024" by (rule one_less_power) simp_all
      ultimately show False by linarith
    qed
    then show ?thesis using False y1 by (simp add: round_float64_def Let_def)
  next
    case neg: False
    then have "x / ?q \<le> of_int 0" using q False by (simp add: divide_le_0_iff)
    then have "round_half_even (x / ?q) \<le> 0" by (rule round_half_even_le)
    then have "?y \<le> 0" using q by (simp add: mult_le_0_iff)
    then show ?thesis using False neg by (simp add: round_float64_def Let_def)
  qed
qed


text \<open>Powers of two in the range of doubles are doubles.\<close>

lemma exponent64_power_of_two:
  assumes "- 1022 \<le> k" and "k \<le> 1023"
  shows "exponent64 (2 powi k) = k"
  unfolding exponent64_def
proof (rule Max_eqI)
  show "finite (insert (- 1022) {j \<in> {- 1022 .. 1023}. 2 powi j \<le> \<bar>2 powi k :: real\<bar>})"
    by (rule exponent64_candidates)
  show "k \<in> insert (- 1022) {j \<in> {- 1022 .. 1023}. 2 powi j \<le> \<bar>2 powi k :: real\<bar>}"
    using assms by simp
  fix j assume "j \<in> insert (- 1022) {j \<in> {- 1022 .. 1023}. 2 powi j \<le> \<bar>2 powi k :: real\<bar>}"
  then consider "j = - 1022" | "(2::real) powi j \<le> 2 powi k" by auto
  then show "j \<le> k"
  proof cases
    case 1
    with assms show ?thesis by simp
  next
    case 2
    show ?thesis
    proof (rule ccontr)
      assume "\<not> j \<le> k"
      then have "(2::real) powi k < 2 powi j" by (intro power_int_strict_increasing) simp_all
      with 2 show False by simp
    qed
  qed
qed

lemma round_float64_power_of_two:
  assumes "- 1022 \<le> k" and "k \<le> 1023"
  shows "round_float64 (2 powi k) = Finite (2 powi k)"
proof -
  let ?q = "2 powi (k - 52) :: real"
  have q: "0 < ?q" by simp
  have "(2::real) powi (k - (k - 52)) = 2 powi k / ?q"
    by (rule power_int_diff) simp
  then have "(2 powi k :: real) / ?q = 2 powi (k - (k - 52))" by simp
  also have "\<dots> = of_int (2 ^ 52)" by (simp add: power_int_def)
  finally have d: "(2 powi k :: real) / ?q = of_int (2 ^ 52)" .
  then have "round_half_even ((2 powi k) / ?q) = 2 ^ 52" by (simp only: round_half_even_int)
  then have "of_int (round_half_even ((2 powi k) / ?q)) * ?q = ((2 powi k) / ?q) * ?q"
    using d by simp
  also have "\<dots> = 2 powi k" using q by simp
  finally have y: "of_int (round_half_even ((2 powi k) / ?q)) * ?q = 2 powi k" .
  have "(2::real) powi k < 2 powi 1024"
    using assms by (intro power_int_strict_increasing) simp_all
  then have "\<not> (2::real) ^ 1024 \<le> \<bar>2 powi k\<bar>" by (simp add: power_int_def)
  then show ?thesis
    unfolding round_float64_def exponent64_power_of_two [OF assms] Let_def y by simp
qed

text \<open>A quotient that is not a double is rounded: 1 / 3 becomes the double next to it.\<close>

lemma exponent64_third: "exponent64 (1 / 3) = - 2"
  unfolding exponent64_def
proof (rule Max_eqI)
  show "finite (insert (- 1022) {k \<in> {- 1022 .. 1023}. 2 powi k \<le> \<bar>1 / 3 :: real\<bar>})"
    by (rule exponent64_candidates)
  show "- 2 \<in> insert (- 1022) {k \<in> {- 1022 .. 1023}. 2 powi k \<le> \<bar>1 / 3 :: real\<bar>}"
    by (simp add: power_int_minus)
  fix j assume "j \<in> insert (- 1022) {k \<in> {- 1022 .. 1023}. 2 powi k \<le> \<bar>1 / 3 :: real\<bar>}"
  then consider "j = - 1022" | "(2::real) powi j \<le> 1 / 3" by auto
  then show "j \<le> - 2"
  proof cases
    case 1
    then show ?thesis by simp
  next
    case 2
    show ?thesis
    proof (rule ccontr)
      assume "\<not> j \<le> - 2"
      then have "(2::real) powi (- 1) \<le> 2 powi j" by (intro power_int_increasing) simp_all
      with 2 show False by (simp add: power_int_minus)
    qed
  qed
qed

lemma round_float64_third:
  "round_float64 (1 / 3) = Finite (6004799503160661 / 18014398509481984)"
proof -
  have q: "(2::real) powi (- 2 - 52) = 1 / 18014398509481984"
    by (simp add: power_int_minus)
  have "round_half_even ((1 / 3) / (1 / 18014398509481984)) = 6004799503160661"
    by (simp add: round_half_even_def Let_def)
  then show ?thesis
    unfolding round_float64_def exponent64_third Let_def q by simp
qed

lemma normalize_intensity_empty: "normalize_intensity [] = Inl ValueError"
  by (simp add: normalize_intensity_def)

lemma normalize_intensity_nonpos_float:
  assumes "m \<in> set intensity" and "\<forall>x \<in> set intensity. f_le x m" and "f_le m (Finite 0)"
  shows "normalize_intensity intensity = Inr intensity"
  using np_max_float_eq [OF assms(1,2)] assms(3) by (simp add: normalize_intensity_def)

text \<open>
  Claim C7. For a non-empty intensity sequence whose maximum is zero or negative,
  \<open>normalize_intensity\<close> returns its input unchanged: for every sequence of doubles
  that has a greatest element \<open>m\<close> with \<open>m \<le> 0\<close> (an infinity included), and so for
  every non-empty sequence of real-valued samples whose maximum is at most 0.
\<close>

theorem normalize_intensity_nonpos:
  "(m \<in> set intensity \<and> (\<forall>x \<in> set intensity. f_le x m) \<and> f_le m (Finite 0)
      \<longrightarrow> normalize_intensity intensity = Inr intensity)
   \<and> (xs \<noteq> [] \<and> Max (set xs) \<le> 0
      \<longrightarrow> normalize_intensity (map Finite xs) = Inr (map Finite xs))"
proof (intro conjI impI)
  assume "m \<in> set intensity \<and> (\<forall>x \<in> set intensity. f_le x m) \<and> f_le m (Finite 0)"
  then show "normalize_intensity intensity = Inr intensity"
    by (intro normalize_intensity_nonpos_float [of m]) simp_all
next
  assume h: "xs \<noteq> [] \<and> Max (set xs) \<le> 0"
  then have "Max (set xs) \<in> set xs" by (intro Max_in) simp_all
  then have "Finite (Max (set xs)) \<in> set (map Finite xs)" by simp
  moreover have "\<forall>x \<in> set (map Finite xs). f_le x (Finite (Max (set xs)))" by auto
  moreover have "f_le (Finite (Max (set xs))) (Finite 0)" using h by (simp del: Max_le_iff)
  ultimately show "normalize_intensity (map Finite xs) = Inr (map Finite xs)"
    by (rule normalize_intensity_nonpos_float)
qed

theorem normalize_intensity_nonpos_witness:
  "normalize_intensity [Finite (- 3), Finite 0, NegInf] = Inr [Finite (- 3), Finite 0, NegInf]
   \<and> normalize_intensity (map Finite [- 3, 0, - 1]) = Inr (map Finite [- 3, 0, - 1])"
  using normalize_intensity_nonpos [of "Finite 0" "[Finite (- 3), Finite 0, NegInf]" "[- 3, 0, - 1]"]
  by simp

lemma f_div_by_max:
  assumes "0 < m" and "f_le x (Finite m)"
  shows "f_div x (Finite m) \<noteq> NaN \<and> f_le (f_div x (Finite m)) (Finite 1)"
proof (cases x)
  case (Finite a)
  then have "a / m \<le> 1" using assms by (simp add: divide_le_eq)
  then have "f_le (round_float64 (a / m)) (Finite 1)" by (rule round_float64_le_one)
  then show ?thesis using Finite assms(1) by (simp add: round_float64_not_NaN)
next
  case PosInf
  with assms show ?thesis by simp
next
  case NegInf
  with assms show ?thesis by simp
next
  case NaN
  with assms show ?thesis by simp
qed

text \<open>
  Claim C6, as the code has it. For an intensity sequence whose maximum \<open>m\<close> is
  strictly positive and finite (so that \<open>m\<close> is its greatest element and no element
  is NaN), \<open>normalize_intensity\<close> returns every element divided by \<open>m\<close> in double
  arithmetic, and the maximum of the result is exactly 1.
\<close>

theorem normalize_intensity_pos:
  assumes "np_max_float intensity = Inr (Finite m)" and "0 < m"
  shows "Finite m \<in> set intensity \<and> (\<forall>x \<in> set intensity. f_le x (Finite m))
         \<and> normalize_intensity intensity = Inr (map (\<lambda>x. f_div x (Finite m)) intensity)
         \<and> np_max_float (map (\<lambda>x. f_div x (Finite m)) intensity) = Inr (Finite 1)"
proof -
  have g: "Finite m \<in> set intensity" "\<forall>x \<in> set intensity. f_le x (Finite m)"
    using np_max_float_greatest [OF assms(1)] by simp_all
  have "\<not> f_le (Finite m) (Finite 0)" using assms(2) by simp
  with assms(1)
  have n: "normalize_intensity intensity = Inr (map (\<lambda>x. f_div x (Finite m)) intensity)"
    by (simp add: normalize_intensity_def)
  have "f_div (Finite m) (Finite m) = Finite 1"
    using assms(2) by (simp add: round_float64_one)
  then have one: "Finite 1 \<in> set (map (\<lambda>x. f_div x (Finite m)) intensity)"
    using g(1) by force
  have "\<forall>y \<in> set (map (\<lambda>x. f_div x (Finite m)) intensity). f_le y (Finite 1)"
    using g(2) assms(2) f_div_by_max by auto
  with one have "np_max_float (map (\<lambda>x. f_div x (Finite m)) intensity) = Inr (Finite 1)"
    by (rule np_max_float_eq)
  with g n show ?thesis by simp
qed

theorem normalize_intensity_pos_witness:
  "np_max_float [Finite 1, Finite 2, NegInf, Finite 4] = Inr (Finite 4) \<and> 0 < (4::real)
   \<and> normalize_intensity [Finite 1, Finite 2, NegInf, Finite 4]
       = Inr [Finite (1 / 4), Finite (1 / 2), NegInf, Finite 1]
   \<and> np_max_float [Finite (1 / 4), Finite (1 / 2), NegInf, Finite 1] = Inr (Finite 1)"
proof -
  have r: "round_float64 (1 / 4) = Finite (1 / 4)" "round_float64 (1 / 2) = Finite (1 / 2)"
    using round_float64_power_of_two [of "- 2"] round_float64_power_of_two [of "- 1"]
    by (simp_all add: power_int_minus)
  have h: "np_max_float [Finite 1, Finite 2, NegInf, Finite 4] = Inr (Finite 4)" "0 < (4::real)"
    by (simp_all add: f_maximum_def)
  from normalize_intensity_pos [OF h] h show ?thesis
    by (simp add: r round_float64_one)
qed

text \<open>
  With a maximum of plus infinity, which is strictly positive, the claim as worded
  fails: infinity divided by infinity is NaN, and the maximum of the result is NaN.
\<close>

theorem normalize_intensity_inf_counterexample:
  "np_max_float [PosInf, Finite 1] = Inr PosInf
   \<and> f_le (Finite 0) PosInf \<and> \<not> f_le PosInf (Finite 0)
   \<and> normalize_intensity [PosInf, Finite 1] = Inr [NaN, Finite 0]
   \<and> np_max_float [NaN, Finite 0] = Inr NaN"
  by (simp add: normalize_intensity_def f_maximum_def)

text \<open>The second element of the result is the double that \<open>1.0 / 3.0\<close> evaluates to.\<close>

lemma normalize_intensity_third:
  "normalize_intensity [Finite 1, Finite 3]
     = Inr [Finite (6004799503160661 / 18014398509481984), Finite 1]"
  by (simp add: normalize_intensity_def f_maximum_def round_float64_third round_float64_one)

section \<open>Properties of the vector store\<close>

subsection \<open>The deduplication loop\<close>

lemma top_match_exceeds_iff:
  "top_match_exceeds resp \<longleftrightarrow> matches resp \<noteq> [] \<and> 99 / 100 < m_score (matches resp ! 0)"
  by (cases "matches resp") (simp_all add: top_match_exceeds_def)

lemma staged_vectors_Nil: "staged_vectors be c [] = []"
  by (simp add: staged_vectors_def)

lemma staged_vectors_Cons:
  "staged_vectors be c ((t, v) # kept) =
     \<lparr>v_id = uuid4 be c, v_values = v, v_metadata = [''text'' \<mapsto> t]\<rparr>
       # staged_vectors be (Suc c) kept"
  by (simp add: staged_vectors_def)

text \<open>
  The loop stages the kept pairs in order, draws one UUID per staged pair, queries
  the index once per pair and leaves the index as it found it.
\<close>

lemma dedup_loop_spec:
  "dedup_loop be ns pairs acc w =
     (acc @ staged_vectors be (uuid_count w) (kept_pairs be (pinecone w) ns pairs),
      w\<lparr>uuid_count := uuid_count w + length (kept_pairs be (pinecone w) ns pairs),
        calls := calls w @ map (\<lambda>p. IndexQuery ns (snd p) 1) pairs\<rparr>)"
proof (induction pairs arbitrary: acc w)
  case Nil
  then show ?case by (simp add: kept_pairs_def staged_vectors_Nil)
next
  case (Cons p pairs)
  obtain t v where p: "p = (t, v)" by (cases p)
  let ?w1 = "log_call (IndexQuery ns v 1) w"
  have w1: "pinecone ?w1 = pinecone w" "uuid_count ?w1 = uuid_count w"
    "calls ?w1 = calls w @ [IndexQuery ns v 1]"
    by (simp_all add: log_call_def)
  show ?case
  proof (cases "index_query be (pinecone w) ns v 1")
    case (Inl e)
    then have "\<not> is_kept be (pinecone w) ns (t, v)" by (simp add: is_kept_def)
    then show ?thesis
      using Inl p w1 Cons.IH [of acc ?w1]
      by (simp add: kept_pairs_def log_call_def)
  next
    case (Inr existing)
    show ?thesis
    proof (cases "top_match_exceeds existing")
      case True
      then have "\<not> is_kept be (pinecone w) ns (t, v)" using Inr by (simp add: is_kept_def)
      then show ?thesis
        using Inr True p w1 Cons.IH [of acc ?w1] top_match_exceeds_iff [of existing]
        by (simp add: kept_pairs_def log_call_def)
    next
      case False
      then have k: "is_kept be (pinecone w) ns (t, v)" using Inr by (simp add: is_kept_def)
      let ?w2 = "?w1\<lparr>uuid_count := Suc (uuid_count ?w1)\<rparr>"
      let ?v = "\<lparr>v_id = uuid4 be (uuid_count w), v_values = v, v_metadata = [''text'' \<mapsto> t]\<rparr>"
      have "dedup_loop be ns (p # pairs) acc w = dedup_loop be ns pairs (acc @ [?v]) ?w2"
        using Inr False p w1 top_match_exceeds_iff [of existing] by (auto simp: Let_def)
      then show ?thesis
        using k p Cons.IH [of "acc @ [?v]" ?w2]
        by (simp add: kept_pairs_def log_call_def staged_vectors_Cons)
    qed
  qed
qed

lemma staged_vectors_ids:
  "map v_id (staged_vectors be c kept) = map (uuid4 be) [c ..< c + length kept]"
proof (induction kept arbitrary: c)
  case Nil
  then show ?case by (simp add: staged_vectors_Nil)
next
  case (Cons p kept)
  obtain t v where p: "p = (t, v)" by (cases p)
  have "[c ..< c + length (p # kept)] = c # [Suc c ..< Suc c + length kept]"
    by (simp add: upt_conv_Cons del: upt_Suc)
  with Cons [of "Suc c"] p show ?case by (simp add: staged_vectors_Cons del: upt_Suc)
qed

lemma staged_vectors_values: "map v_values (staged_vectors be c kept) = map snd kept"
  by (induction kept arbitrary: c) (auto simp: staged_vectors_Nil staged_vectors_Cons)

lemma staged_vectors_metadata:
  "map v_metadata (staged_vectors be c kept) = map (\<lambda>p. [''text'' \<mapsto> fst p]) kept"
  by (induction kept arbitrary: c) (auto simp: staged_vectors_Nil staged_vectors_Cons)

lemma staged_vectors_distinct:
  assumes "inj (uuid4 be)"
  shows "distinct (map v_id (staged_vectors be c kept))"
  using assms by (simp add: staged_vectors_ids distinct_map inj_on_def inj_def)

lemma upsert_docs_unfold:
  assumes "enabled self" and "docs \<noteq> []" and "embeddings_create be docs = Inr embeddings"
  shows "upsert_docs be self docs ns w =
         insert_staged be ns
           (staged_vectors be (uuid_count w) (kept_pairs be (pinecone w) ns (zip docs embeddings)))
           (w\<lparr>uuid_count :=
                uuid_count w + length (kept_pairs be (pinecone w) ns (zip docs embeddings)),
              calls := calls w @ EmbeddingsCreate docs
                         # map (\<lambda>p. IndexQuery ns (snd p) 1) (zip docs embeddings)\<rparr>)"
  using assms
  by (simp add: upsert_docs_def embed_text_def upsert_pairs_def dedup_loop_spec log_call_def)

subsection \<open>Insertion with deduplication\<close>

lemma staged_vectors_fresh:
  assumes "\<forall>n. c \<le> n \<longrightarrow> uuid4 be n \<notin> stored"
  shows "set (map v_id (staged_vectors be c kept)) \<inter> stored = {}"
  using assms by (auto simp: staged_vectors_ids)

text \<open>
  Claim C2, as the code has it. On an enabled store with a non-empty batch whose
  embedding call returns, the pairs are examined in order and each is queried once.
  A pair whose query returns is skipped if and only if the response has a top match
  scoring strictly above 0.99 (a top score of exactly 0.99 does not skip); a pair whose
  query raises is skipped as well. Each remaining pair is staged with a fresh unique
  id, its embedding and the metadata \<open>{text}\<close>: the id is a draw of the UUID generator
  made for this pair alone, so the staged ids are pairwise distinct when the generator
  never repeats, and none of them is an id already stored when the generator does not
  return stored ids. After the last pair all staged vectors go to the index in one
  upsert call for the namespace; no call is made when nothing was staged.
\<close>

theorem upsert_docs_spec:
  assumes "enabled self" and "docs \<noteq> []" and "embeddings_create be docs = Inr embeddings"
  shows "let kept = kept_pairs be (pinecone w) ns (zip docs embeddings);
             staged = staged_vectors be (uuid_count w) kept;
             w' = w\<lparr>uuid_count := uuid_count w + length kept,
                     calls := calls w @ EmbeddingsCreate docs
                                # map (\<lambda>p. IndexQuery ns (snd p) 1) (zip docs embeddings)\<rparr>
         in kept = filter (is_kept be (pinecone w) ns) (zip docs embeddings)
          \<and> (\<forall>p resp. index_query be (pinecone w) ns (snd p) 1 = Inr resp \<longrightarrow>
                (is_kept be (pinecone w) ns p \<longleftrightarrow>
                   \<not> (matches resp \<noteq> [] \<and> 99 / 100 < m_score (matches resp ! 0))))
          \<and> (\<forall>p e. index_query be (pinecone w) ns (snd p) 1 = Inl e \<longrightarrow>
                \<not> is_kept be (pinecone w) ns p)
          \<and> map v_id staged = map (uuid4 be) [uuid_count w ..< uuid_count w + length kept]
          \<and> map v_values staged = map snd kept
          \<and> map v_metadata staged = map (\<lambda>p. [''text'' \<mapsto> fst p]) kept
          \<and> (inj (uuid4 be) \<longrightarrow> distinct (map v_id staged))
          \<and> ((\<forall>n. uuid_count w \<le> n \<longrightarrow> uuid4 be n \<notin> stored) \<longrightarrow>
                set (map v_id staged) \<inter> stored = {})
          \<and> upsert_docs be self docs ns w =
              (if staged = [] then (Inr (), w')
               else case index_upsert be (pinecone w) staged ns of
                      Inl e \<Rightarrow> (Inl e, w'\<lparr>calls := calls w' @ [IndexUpsert staged ns]\<rparr>)
                    | Inr ix \<Rightarrow>
                        (Inr (), w'\<lparr>calls := calls w' @ [IndexUpsert staged ns],
                                    pinecone := ix\<rparr>))"
proof -
  let ?kept = "kept_pairs be (pinecone w) ns (zip docs embeddings)"
  let ?staged = "staged_vectors be (uuid_count w) ?kept"
  let ?w' = "w\<lparr>uuid_count := uuid_count w + length ?kept,
               calls := calls w @ EmbeddingsCreate docs
                          # map (\<lambda>p. IndexQuery ns (snd p) 1) (zip docs embeddings)\<rparr>"
  have kept: "?kept = filter (is_kept be (pinecone w) ns) (zip docs embeddings)"
    by (simp add: kept_pairs_def)
  have ret: "\<forall>p resp. index_query be (pinecone w) ns (snd p) 1 = Inr resp \<longrightarrow>
               (is_kept be (pinecone w) ns p \<longleftrightarrow>
                  \<not> (matches resp \<noteq> [] \<and> 99 / 100 < m_score (matches resp ! 0)))"
    by (simp add: is_kept_def top_match_exceeds_iff)
  have raised: "\<forall>p e. index_query be (pinecone w) ns (snd p) 1 = Inl e \<longrightarrow>
               \<not> is_kept be (pinecone w) ns p"
    by (simp add: is_kept_def)
  have ids: "map v_id ?staged = map (uuid4 be) [uuid_count w ..< uuid_count w + length ?kept]"
    by (rule staged_vectors_ids)
  have vals: "map v_values ?staged = map snd ?kept"
    by (rule staged_vectors_values)
  have meta: "map v_metadata ?staged = map (\<lambda>p. [''text'' \<mapsto> fst p]) ?kept"
    by (rule staged_vectors_metadata)
  have dist: "inj (uuid4 be) \<longrightarrow> distinct (map v_id ?staged)"
    by (simp add: staged_vectors_distinct)
  have fresh: "(\<forall>n. uuid_count w \<le> n \<longrightarrow> uuid4 be n \<notin> stored) \<longrightarrow>
                set (map v_id ?staged) \<inter> stored = {}"
    using staged_vectors_fresh [of "uuid_count w" be stored ?kept] by blast
  have run: "upsert_docs be self docs ns w =
             (if ?staged = [] then (Inr (), ?w')
              else case index_upsert be (pinecone w) ?staged ns of
                     Inl e \<Rightarrow> (Inl e, ?w'\<lparr>calls := calls ?w' @ [IndexUpsert ?staged ns]\<rparr>)
                   | Inr ix \<Rightarrow>
                       (Inr (), ?w'\<lparr>calls := calls ?w' @ [IndexUpsert ?staged ns],
                                   pinecone := ix\<rparr>))"
    unfolding upsert_docs_unfold [OF assms]
    by (simp add: insert_staged_def log_call_def split: sum.split)
  from kept ret raised ids vals meta dist fresh run show ?thesis
    unfolding Let_def by blast
qed

lemma toy_uuid_inj: "inj toy_uuid"
proof (rule injI)
  fix m n assume "toy_uuid m = toy_uuid n"
  then have "length (toy_uuid m) = length (toy_uuid n)" by simp
  then show "m = n" by (simp add: toy_uuid_def)
qed

lemma toy_uuid_not_a: "toy_uuid n \<noteq> ''a''"
  by (simp add: toy_uuid_def)

text \<open>
  An instance on the scripted backend, in a namespace that already holds the vector
  \<open>a\<close>: \<open>xas\<close> has a neighbour at exactly 0.99 and is staged, \<open>other\<close> has one at 1
  and is skipped, \<open>new\<close> has none and is staged, the query of \<open>both\<close> fails and it is
  skipped; the two staged vectors have ids of their own and reach the index in one
  call, next to the vector stored before.
\<close>

theorem upsert_docs_spec_witness:
  "enabled \<lparr>enabled = True\<rparr>
   \<and> [''xas'', ''other'', ''new'', ''both''] \<noteq> []
   \<and> embeddings_create scripted_backend [''xas'', ''other'', ''new'', ''both'']
       = Inr [[1, 0], [0, 1], [2, 0], [1, 1]]
   \<and> inj (uuid4 scripted_backend)
   \<and> stored_ids (pinecone seeded_world) ''default'' = {''a''}
   \<and> index_query scripted_backend (pinecone seeded_world) ''default'' [1, 0] 1
       = Inr \<lparr>matches = [\<lparr>m_id = ''a'', m_score = 99 / 100,
                            m_metadata = Some [''text'' \<mapsto> ''near'']\<rparr>]\<rparr>
   \<and> index_query scripted_backend (pinecone seeded_world) ''default'' [1, 1] 1
       = Inl (ApiError ''timeout'')
   \<and> fst (upsert_docs scripted_backend \<lparr>enabled = True\<rparr>
             [''xas'', ''other'', ''new'', ''both''] ''default'' seeded_world) = Inr ()
   \<and> calls (snd (upsert_docs scripted_backend \<lparr>enabled = True\<rparr>
             [''xas'', ''other'', ''new'', ''both''] ''default'' seeded_world))
       = [EmbeddingsCreate [''xas'', ''other'', ''new'', ''both''],
          IndexQuery ''default'' [1, 0] 1, IndexQuery ''default'' [0, 1] 1,
          IndexQuery ''default'' [2, 0] 1, IndexQuery ''default'' [1, 1] 1,
          IndexUpsert
            [\<lparr>v_id = ''u'', v_values = [1, 0], v_metadata = [''text'' \<mapsto> ''xas'']\<rparr>,
             \<lparr>v_id = ''uu'', v_values = [2, 0], v_metadata = [''text'' \<mapsto> ''new'']\<rparr>]
            ''default'']
   \<and> pinecone (snd (upsert_docs scripted_backend \<lparr>enabled = True\<rparr>
             [''xas'', ''other'', ''new'', ''both''] ''default'' seeded_world)) ''default''
       = [\<lparr>v_id = ''a'', v_values = [99, 14], v_metadata = [''text'' \<mapsto> ''near'']\<rparr>,
          \<lparr>v_id = ''u'', v_values = [1, 0], v_metadata = [''text'' \<mapsto> ''xas'']\<rparr>,
          \<lparr>v_id = ''uu'', v_values = [2, 0], v_metadata = [''text'' \<mapsto> ''new'']\<rparr>]
   \<and> distinct [''u'', ''uu'']
   \<and> set [''u'', ''uu''] \<inter> stored_ids (pinecone seeded_world) ''default'' = {}"
proof -
  have h: "enabled \<lparr>enabled = True\<rparr>" "[''xas'', ''other'', ''new'', ''both''] \<noteq> []"
    "embeddings_create scripted_backend [''xas'', ''other'', ''new'', ''both'']
       = Inr [[1, 0], [0, 1], [2, 0], [1, 1]]"
    by (simp_all add: scripted_backend_def toy_embedding_def)
  have i: "inj (uuid4 scripted_backend)"
    using toy_uuid_inj by (simp add: scripted_backend_def)
  have st: "stored_ids (pinecone seeded_world) ''default'' = {''a''}"
    by (simp add: stored_ids_def seeded_world_def)
  have f: "\<forall>n. uuid_count seeded_world \<le> n \<longrightarrow>
             uuid4 scripted_backend n \<notin> stored_ids (pinecone seeded_world) ''default''"
    by (simp add: st scripted_backend_def toy_uuid_not_a)
  have k: "kept_pairs scripted_backend (pinecone seeded_world) ''default''
             (zip [''xas'', ''other'', ''new'', ''both''] [[1, 0], [0, 1], [2, 0], [1, 1]])
           = [(''xas'', [1, 0]), (''new'', [2, 0])]"
    by (simp add: kept_pairs_def is_kept_def scripted_backend_def scripted_query_def
        top_match_exceeds_def)
  have s: "staged_vectors scripted_backend (uuid_count seeded_world)
             [(''xas'', [1, 0]), (''new'', [2, 0])]
           = [\<lparr>v_id = ''u'', v_values = [1, 0], v_metadata = [''text'' \<mapsto> ''xas'']\<rparr>,
              \<lparr>v_id = ''uu'', v_values = [2, 0], v_metadata = [''text'' \<mapsto> ''new'']\<rparr>]"
    by (simp add: staged_vectors_Cons staged_vectors_Nil scripted_backend_def toy_uuid_def
        seeded_world_def)
  have u: "index_upsert scripted_backend = mem_upsert" by (simp add: scripted_backend_def)
  have q: "index_query scripted_backend = scripted_query" by (simp add: scripted_backend_def)
  have p: "pinecone seeded_world ''default''
           = [\<lparr>v_id = ''a'', v_values = [99, 14], v_metadata = [''text'' \<mapsto> ''near'']\<rparr>]"
    by (simp add: seeded_world_def)
  from upsert_docs_spec
         [OF h, where w = seeded_world and ns = "''default''"
            and stored = "stored_ids (pinecone seeded_world) ''default''"]
  have "distinct [''u'', ''uu'']
        \<and> set [''u'', ''uu''] \<inter> stored_ids (pinecone seeded_world) ''default'' = {}
        \<and> upsert_docs scripted_backend \<lparr>enabled = True\<rparr>
             [''xas'', ''other'', ''new'', ''both''] ''default'' seeded_world
           = (Inr (),
              seeded_world
                \<lparr>uuid_count := 2,
                 calls := [EmbeddingsCreate [''xas'', ''other'', ''new'', ''both''],
                   IndexQuery ''default'' [1, 0] 1, IndexQuery ''default'' [0, 1] 1,
                   IndexQuery ''default'' [2, 0] 1, IndexQuery ''default'' [1, 1] 1,
                   IndexUpsert
                     [\<lparr>v_id = ''u'', v_values = [1, 0], v_metadata = [''text'' \<mapsto> ''xas'']\<rparr>,
                      \<lparr>v_id = ''uu'', v_values = [2, 0], v_metadata = [''text'' \<mapsto> ''new'']\<rparr>]
                     ''default''],
                 pinecone := (pinecone seeded_world)(''default'' :=
                   [\<lparr>v_id = ''a'', v_values = [99, 14], v_metadata = [''text'' \<mapsto> ''near'']\<rparr>,
                    \<lparr>v_id = ''u'', v_values = [1, 0], v_metadata = [''text'' \<mapsto> ''xas'']\<rparr>,
                    \<lparr>v_id = ''uu'', v_values = [2, 0],
                      v_metadata = [''text'' \<mapsto> ''new'']\<rparr>])\<rparr>)"
    unfolding Let_def k s using i f
    by (simp add: u mem_upsert_def p st) (simp add: seeded_world_def)
  with h i st show ?thesis
    by (simp add: q scripted_query_def)
qed

text \<open>
  The claim as worded fails where a query raises: the query of the only document of
  the batch returns no top match above 0.99 (it returns nothing at all), and still the
  document is skipped: nothing is staged and the index receives no upsert call.
\<close>

theorem upsert_docs_skip_counterexample:
  "index_query scripted_backend (pinecone empty_world) ''default'' [1, 1] 1
     = Inl (ApiError ''timeout'')
   \<and> \<not> skipped_by_score scripted_backend (pinecone empty_world) ''default'' (''both'', [1, 1])
   \<and> fst (dedup_loop scripted_backend ''default'' [(''both'', [1, 1])] [] empty_world) = []
   \<and> upsert_docs scripted_backend \<lparr>enabled = True\<rparr> [''both''] ''default'' empty_world
       = (Inr (), empty_world\<lparr>calls := [EmbeddingsCreate [''both''],
                                          IndexQuery ''default'' [1, 1] 1]\<rparr>)"
  by (simp add: skipped_by_score_def scripted_backend_def scripted_query_def
      upsert_docs_def embed_text_def upsert_pairs_def insert_staged_def log_call_def
      empty_world_def toy_embedding_def)

text \<open>
  Claim C3. Within one call of \<open>upsert_docs\<close> the loop leaves the index untouched and
  what it stages is determined by queries against the index as the call found it. So
  two documents of one batch never see each other: for a batch of two texts with the
  same embedding, in a namespace where that embedding has no neighbour, both queries
  precede the single upsert call and both vectors are handed to it.
\<close>

theorem upsert_docs_same_batch:
  assumes "enabled self"
    and "embeddings_create be [t1, t2] = Inr [e, e]"
    and "index_query be (pinecone w) ns e 1 = Inr \<lparr>matches = []\<rparr>"
  shows "pinecone (snd (dedup_loop be ns pairs [] w)) = pinecone w
         \<and> fst (dedup_loop be ns pairs [] w) =
             staged_vectors be (uuid_count w) (kept_pairs be (pinecone w) ns pairs)
         \<and> upsert_docs be self [t1, t2] ns w =
             (let v1 = \<lparr>v_id = uuid4 be (uuid_count w), v_values = e,
                        v_metadata = [''text'' \<mapsto> t1]\<rparr>;
                  v2 = \<lparr>v_id = uuid4 be (Suc (uuid_count w)), v_values = e,
                        v_metadata = [''text'' \<mapsto> t2]\<rparr>;
                  w' = w\<lparr>uuid_count := uuid_count w + 2,
                          calls := calls w @ [EmbeddingsCreate [t1, t2], IndexQuery ns e 1,
                                              IndexQuery ns e 1, IndexUpsert [v1, v2] ns]\<rparr>
              in case index_upsert be (pinecone w) [v1, v2] ns of
                   Inl err \<Rightarrow> (Inl err, w')
                 | Inr ix \<Rightarrow> (Inr (), w'\<lparr>pinecone := ix\<rparr>))"
proof -
  have k: "kept_pairs be (pinecone w) ns [(t1, e), (t2, e)] = [(t1, e), (t2, e)]"
    using assms(3) by (simp add: kept_pairs_def is_kept_def top_match_exceeds_def)
  have "upsert_docs be self [t1, t2] ns w =
        insert_staged be ns
           (staged_vectors be (uuid_count w) [(t1, e), (t2, e)])
           (w\<lparr>uuid_count := uuid_count w + 2,
              calls := calls w @ [EmbeddingsCreate [t1, t2], IndexQuery ns e 1,
                                  IndexQuery ns e 1]\<rparr>)"
    using upsert_docs_unfold [where w = w and ns = ns, OF assms(1) _ assms(2)] by (simp add: k)
  then show ?thesis
    by (simp add: dedup_loop_spec insert_staged_def log_call_def staged_vectors_Cons
        staged_vectors_Nil Let_def split: sum.split)
qed

text \<open>
  An instance on the in-memory index: the namespace is empty, the two texts are
  identical, their embeddings have cosine similarity 1, and both are stored.
\<close>

theorem upsert_docs_same_batch_witness:
  "enabled \<lparr>enabled = True\<rparr>
   \<and> embeddings_create mem_backend [''xas'', ''xas''] = Inr [[1, 0], [1, 0]]
   \<and> index_query mem_backend (pinecone empty_world) ''default'' [1, 0] 1 = Inr \<lparr>matches = []\<rparr>
   \<and> 99 / 100 < cosine [1, 0] [1, 0]
   \<and> fst (upsert_docs mem_backend \<lparr>enabled = True\<rparr> [''xas'', ''xas''] ''default'' empty_world)
       = Inr ()
   \<and> pinecone (snd (upsert_docs mem_backend \<lparr>enabled = True\<rparr> [''xas'', ''xas''] ''default''
                        empty_world)) ''default''
       = [\<lparr>v_id = ''u'', v_values = [1, 0], v_metadata = [''text'' \<mapsto> ''xas'']\<rparr>,
          \<lparr>v_id = ''uu'', v_values = [1, 0], v_metadata = [''text'' \<mapsto> ''xas'']\<rparr>]"
proof -
  have h: "enabled \<lparr>enabled = True\<rparr>"
    "embeddings_create mem_backend [''xas'', ''xas''] = Inr [[1, 0], [1, 0]]"
    "index_query mem_backend (pinecone empty_world) ''default'' [1, 0] 1 = Inr \<lparr>matches = []\<rparr>"
    by (simp_all add: mem_backend_def toy_embedding_def mem_query_def empty_world_def)
  have c: "99 / 100 < cosine [1, 0] [1, 0]" by (simp add: cosine_def dot_def)
  have u: "index_upsert mem_backend = mem_upsert" "uuid4 mem_backend = toy_uuid"
    by (simp_all add: mem_backend_def)
  from upsert_docs_same_batch [OF h, where pairs = "[]"] h c show ?thesis
    by (simp add: Let_def u mem_upsert_def toy_uuid_def empty_world_def)
qed

text \<open>
  For contrast, the same text sent in a second call finds the vector stored by the
  first call at similarity 1 and is skipped.
\<close>

lemma upsert_docs_second_call:
  "upsert_docs mem_backend \<lparr>enabled = True\<rparr> [''xas''] ''default''
     (snd (upsert_docs mem_backend \<lparr>enabled = True\<rparr> [''xas''] ''default'' empty_world))
   = (Inr (),
      \<lparr>pinecone = (\<lambda>namespace. [])(''default'' :=
          [\<lparr>v_id = ''u'', v_values = [1, 0], v_metadata = [''text'' \<mapsto> ''xas'']\<rparr>]),
       uuid_count = 1,
       calls = [EmbeddingsCreate [''xas''], IndexQuery ''default'' [1, 0] 1,
                IndexUpsert
                  [\<lparr>v_id = ''u'', v_values = [1, 0], v_metadata = [''text'' \<mapsto> ''xas'']\<rparr>]
                  ''default'',
                EmbeddingsCreate [''xas''], IndexQuery ''default'' [1, 0] 1]\<rparr>)"
  by (simp add: upsert_docs_def embed_text_def upsert_pairs_def insert_staged_def log_call_def
      mem_backend_def mem_query_def mem_upsert_def toy_embedding_def toy_uuid_def
      empty_world_def cosine_def dot_def)

subsection \<open>A failing deduplication query\<close>

text \<open>
  Claim C5. When the deduplication query of one document raises, that document is
  not staged and its query is not repeated; the loop goes on, and the other documents
  are staged, with the same ids, exactly as in the batch without it, so the final
  insertion and the outcome of the call are those of the batch without it.
\<close>

theorem dedup_query_failure_skips:
  assumes "index_query be (pinecone w) ns e 1 = Inl err"
  shows "fst (dedup_loop be ns (ps @ (t, e) # qs) [] w) = fst (dedup_loop be ns (ps @ qs) [] w)
         \<and> calls (snd (dedup_loop be ns (ps @ (t, e) # qs) [] w)) =
             calls w @ map (\<lambda>p. IndexQuery ns (snd p) 1) ps @ IndexQuery ns e 1
               # map (\<lambda>p. IndexQuery ns (snd p) 1) qs
         \<and> fst (upsert_pairs be ns (ps @ (t, e) # qs) w) = fst (upsert_pairs be ns (ps @ qs) w)
         \<and> pinecone (snd (upsert_pairs be ns (ps @ (t, e) # qs) w)) =
             pinecone (snd (upsert_pairs be ns (ps @ qs) w))
         \<and> uuid_count (snd (upsert_pairs be ns (ps @ (t, e) # qs) w)) =
             uuid_count (snd (upsert_pairs be ns (ps @ qs) w))"
proof -
  have "\<not> is_kept be (pinecone w) ns (t, e)" using assms by (simp add: is_kept_def)
  then have k: "kept_pairs be (pinecone w) ns (ps @ (t, e) # qs) =
                kept_pairs be (pinecone w) ns (ps @ qs)"
    by (simp add: kept_pairs_def)
  show ?thesis
    by (simp add: upsert_pairs_def dedup_loop_spec k insert_staged_def log_call_def Let_def
        split: sum.split)
qed

theorem dedup_query_failure_skips_witness:
  "index_query scripted_backend (pinecone empty_world) ''default'' [1, 1] 1
     = Inl (ApiError ''timeout'')
   \<and> fst (dedup_loop scripted_backend ''default''
            ([(''xas'', [1, 0])] @ (''both'', [1, 1]) # [(''new'', [2, 0])]) [] empty_world)
       = [\<lparr>v_id = ''u'', v_values = [1, 0], v_metadata = [''text'' \<mapsto> ''xas'']\<rparr>,
          \<lparr>v_id = ''uu'', v_values = [2, 0], v_metadata = [''text'' \<mapsto> ''new'']\<rparr>]
   \<and> fst (upsert_pairs scripted_backend ''default''
            ([(''xas'', [1, 0])] @ (''both'', [1, 1]) # [(''new'', [2, 0])]) empty_world)
       = Inr ()
   \<and> pinecone (snd (upsert_pairs scripted_backend ''default''
            ([(''xas'', [1, 0])] @ (''both'', [1, 1]) # [(''new'', [2, 0])]) empty_world))
         ''default''
       = [\<lparr>v_id = ''u'', v_values = [1, 0], v_metadata = [''text'' \<mapsto> ''xas'']\<rparr>,
          \<lparr>v_id = ''uu'', v_values = [2, 0], v_metadata = [''text'' \<mapsto> ''new'']\<rparr>]"
proof -
  have h: "index_query scripted_backend (pinecone empty_world) ''default'' [1, 1] 1
             = Inl (ApiError ''timeout'')"
    by (simp add: scripted_backend_def scripted_query_def)
  have r: "dedup_loop scripted_backend ''default'' ([(''xas'', [1, 0])] @ [(''new'', [2, 0])]) []
             empty_world
           = ([\<lparr>v_id = ''u'', v_values = [1, 0], v_metadata = [''text'' \<mapsto> ''xas'']\<rparr>,
               \<lparr>v_id = ''uu'', v_values = [2, 0], v_metadata = [''text'' \<mapsto> ''new'']\<rparr>],
              empty_world\<lparr>uuid_count := 2,
                          calls := [IndexQuery ''default'' [1, 0] 1,
                                    IndexQuery ''default'' [2, 0] 1]\<rparr>)"
    by (simp add: scripted_backend_def scripted_query_def log_call_def toy_uuid_def
        empty_world_def)
  from dedup_query_failure_skips [OF h, of "[(''xas'', [1, 0])]" "''both''" "[(''new'', [2, 0])]"]
    h r show ?thesis
    by (simp add: upsert_pairs_def insert_staged_def log_call_def scripted_backend_def
        mem_upsert_def empty_world_def)
qed

subsection \<open>A disabled store\<close>

text \<open>
  Claim C4. Constructed with an empty Pinecone API key, the store is disabled and the
  constructor contacts nothing. On a disabled store, in whatever state the world is,
  \<open>retrieve\<close> returns the empty list without raising and \<open>upsert_docs\<close> returns
  without raising, and neither makes a call to the embedding provider or the index nor
  changes anything. No operation of the store sets \<open>enabled\<close>, so this holds for every
  later call.
\<close>

theorem disabled_store_noop:
  "PineconeRAG_init be [] index_name w0 = (Inr \<lparr>enabled = False\<rparr>, w0)
   \<and> retrieve be \<lparr>enabled = False\<rparr> query k ns w = (Inr [], w)
   \<and> upsert_docs be \<lparr>enabled = False\<rparr> docs ns' w = (Inr (), w)"
  by (simp add: PineconeRAG_init_def retrieve_def upsert_docs_def)

theorem disabled_store_noop_witness:
  "PineconeRAG_init mem_backend '''' ''xray-rag'' empty_world = (Inr \<lparr>enabled = False\<rparr>, empty_world)
   \<and> retrieve mem_backend \<lparr>enabled = False\<rparr> ''anything'' 3 ''default'' empty_world
       = (Inr [], empty_world)
   \<and> upsert_docs mem_backend \<lparr>enabled = False\<rparr> [''xas''] ''default'' empty_world
       = (Inr (), empty_world)
   \<and> calls empty_world = []"
  using disabled_store_noop
    [of mem_backend "''xray-rag''" empty_world "''anything''" 3 "''default''" empty_world
        "[''xas'']" "''default''"]
  by (simp add: empty_world_def)

subsection \<open>Retrieval\<close>

text \<open>
  The loop turns the matches into triples in order and stops with AttributeError at
  the first match whose metadata is \<open>None\<close>.
\<close>

lemma results_loop_map:
  assumes "\<forall>m \<in> set ms. m_metadata m \<noteq> None"
  shows "results_loop ms results =
           Inr (results @ map (\<lambda>m. (dict_get (the (m_metadata m)) ''text'' '''', m_id m,
                                     m_score m)) ms)"
  using assms by (induction ms arbitrary: results) auto

lemma results_loop_None:
  assumes "\<exists>m \<in> set ms. m_metadata m = None"
  shows "results_loop ms results = Inl AttributeError"
  using assms
proof (induction ms arbitrary: results)
  case Nil
  then show ?case by simp
next
  case (Cons m ms)
  then show ?case by (cases "m_metadata m") auto
qed

text \<open>
  Claim C10, as the code has it. On an enabled store, when the embedding call and the
  index query return and every match of the response carries a metadata dict,
  \<open>retrieve\<close> returns one triple (text, id, score) per match of the response, in the
  order of the response, neither filtered nor sorted again; the text is the value
  stored under the metadata key \<open>text\<close>, or the empty string when the dict has no
  such key (an empty dict included), and such a match does not make the call raise.
\<close>

theorem retrieve_spec:
  assumes "enabled self"
    and "embeddings_create be [query] = Inr (q_emb # others)"
    and "index_query be (pinecone w) ns q_emb k = Inr resp"
    and "\<forall>m \<in> set (matches resp). m_metadata m \<noteq> None"
  shows "retrieve be self query k ns w =
           (Inr (map (\<lambda>m. (case the (m_metadata m) ''text'' of None \<Rightarrow> '''' | Some t \<Rightarrow> t,
                            m_id m, m_score m)) (matches resp)),
            w\<lparr>calls := calls w @ [EmbeddingsCreate [query], IndexQuery ns q_emb k]\<rparr>)"
  using assms
  by (simp add: retrieve_def embed_text_def log_call_def py_index_def results_loop_map
      dict_get_def)

theorem retrieve_spec_witness:
  "enabled \<lparr>enabled = True\<rparr>
   \<and> embeddings_create scripted_backend [''other''] = Inr ([0, 1] # [])
   \<and> index_query scripted_backend (pinecone empty_world) ''default'' [0, 1] 3
       = Inr \<lparr>matches = [\<lparr>m_id = ''b'', m_score = 1, m_metadata = Some Map.empty\<rparr>,
                          \<lparr>m_id = ''c'', m_score = 1 / 2,
                           m_metadata = Some [''text'' \<mapsto> ''far'']\<rparr>,
                          \<lparr>m_id = ''d'', m_score = 3 / 4,
                           m_metadata = Some [''title'' \<mapsto> ''t'']\<rparr>]\<rparr>
   \<and> fst (retrieve scripted_backend \<lparr>enabled = True\<rparr> ''other'' 3 ''default'' empty_world)
       = Inr [('''', ''b'', 1), (''far'', ''c'', 1 / 2), ('''', ''d'', 3 / 4)]"
proof -
  have h: "enabled \<lparr>enabled = True\<rparr>"
    "embeddings_create scripted_backend [''other''] = Inr ([0, 1] # [])"
    "index_query scripted_backend (pinecone empty_world) ''default'' [0, 1] 3
       = Inr \<lparr>matches = [\<lparr>m_id = ''b'', m_score = 1, m_metadata = Some Map.empty\<rparr>,
                          \<lparr>m_id = ''c'', m_score = 1 / 2,
                           m_metadata = Some [''text'' \<mapsto> ''far'']\<rparr>,
                          \<lparr>m_id = ''d'', m_score = 3 / 4,
                           m_metadata = Some [''title'' \<mapsto> ''t'']\<rparr>]\<rparr>"
    "\<forall>m \<in> set (matches \<lparr>matches = [\<lparr>m_id = ''b'', m_score = 1, m_metadata = Some Map.empty\<rparr>,
                          \<lparr>m_id = ''c'', m_score = 1 / 2,
                           m_metadata = Some [''text'' \<mapsto> ''far'']\<rparr>,
                          \<lparr>m_id = ''d'', m_score = 3 / 4,
                           m_metadata = Some [''title'' \<mapsto> ''t'']\<rparr>]\<rparr>).
        m_metadata m \<noteq> None"
    by (simp_all add: scripted_backend_def scripted_query_def toy_embedding_def)
  from retrieve_spec [OF h] h(1-3) show ?thesis by simp
qed

text \<open>
  The claim as worded fails for a match that has no metadata at all: the response to
  the query \<open>bare\<close> holds a match with metadata \<open>None\<close> after one with a text, and
  \<open>retrieve\<close> raises AttributeError instead of returning triples.
\<close>

theorem retrieve_no_metadata_counterexample:
  "enabled \<lparr>enabled = True\<rparr>
   \<and> index_query scripted_backend (pinecone empty_world) ''default'' [1, 2] 3
       = Inr \<lparr>matches = [\<lparr>m_id = ''c'', m_score = 1 / 2,
                           m_metadata = Some [''text'' \<mapsto> ''far'']\<rparr>,
                          \<lparr>m_id = ''e'', m_score = 1 / 4, m_metadata = None\<rparr>]\<rparr>
   \<and> fst (retrieve scripted_backend \<lparr>enabled = True\<rparr> ''bare'' 3 ''default'' empty_world)
       = Inl AttributeError"
  by (simp add: retrieve_def embed_text_def log_call_def py_index_def scripted_backend_def
      scripted_query_def empty_world_def dict_get_def)

end
